theory Spec2Isabelle
  imports Complex_Main
begin

section \<open>Pagination: the page-number strip\<close>

text \<open>
  \<^verbatim>\<open>getPageNumbers\<close> of the \<^verbatim>\<open>Pagination\<close> component builds the list of
  buttons shown between the previous/next arrows. An entry is either a page
  number or the placeholder \<^verbatim>\<open>'...'\<close>.
\<close>

datatype page = PageNum int | Ellipsis

definition maxVisible :: int where
  "maxVisible = 5"

text \<open>
  The JavaScript pushes onto \<^verbatim>\<open>pages\<close> in sequence; the model appends the
  same segments in the same order. The loop \<^verbatim>\<open>for (i = a; i <= b; i++)\<close>
  pushes the integers of \<open>[a..b]\<close> (none when \<open>b < a\<close>).
\<close>

definition getPageNumbers :: "int \<Rightarrow> int \<Rightarrow> page list" where
  "getPageNumbers currentPage totalPages =
     (if totalPages \<le> maxVisible then map PageNum [1..totalPages]
      else
        let start0 = max 2 (currentPage - 1);
            end0 = min (totalPages - 1) (currentPage + 1);
            end1 = (if currentPage \<le> 3 then 4 else end0);
            start1 = (if currentPage \<ge> totalPages - 2 then totalPages - 3 else start0)
        in [PageNum 1]
           @ (if start1 > 2 then [Ellipsis] else [])
           @ map PageNum [start1..end1]
           @ (if end1 < totalPages - 1 then [Ellipsis] else [])
           @ [PageNum totalPages])"

text \<open>The numeric entries of a strip, in order.\<close>

fun numbers :: "page list \<Rightarrow> int list" where
  "numbers [] = []"
| "numbers (PageNum n # ps) = n # numbers ps"
| "numbers (Ellipsis # ps) = numbers ps"

text \<open>
  A placeholder stands between numeric runs when it is neither the first nor
  the last entry and both of its neighbours are page numbers.
\<close>

fun is_num :: "page \<Rightarrow> bool" where
  "is_num (PageNum _) = True"
| "is_num Ellipsis = False"

fun no_adjacent_ellipsis :: "page list \<Rightarrow> bool" where
  "no_adjacent_ellipsis [] = True"
| "no_adjacent_ellipsis [p] = True"
| "no_adjacent_ellipsis (p # q # ps) =
     ((is_num p \<or> is_num q) \<and> no_adjacent_ellipsis (q # ps))"

definition ellipsis_between :: "page list \<Rightarrow> bool" where
  "ellipsis_between ps =
     (if ps = [] then True
      else is_num (hd ps) \<and> is_num (last ps) \<and> no_adjacent_ellipsis ps)"

section \<open>Exceptions page: severity styling of a card\<close>

text \<open>
  \<^verbatim>\<open>SEVERITY_CONFIG\<close> is an object literal with the own properties
  \<^verbatim>\<open>high\<close>, \<^verbatim>\<open>medium\<close> and \<^verbatim>\<open>low\<close>. Each value carries an icon
  component and four style names (the field \<^verbatim>\<open>text\<close> of the source is
  \<open>text_cls\<close> here, \<^verbatim>\<open>text\<close> being reserved).
\<close>

record severity_config =
  icon :: string
  color :: string
  bg :: string
  text_cls :: string
  border :: string

definition SEVERITY_CONFIG :: "(string \<times> severity_config) list" where
  "SEVERITY_CONFIG =
     [(''high'', \<lparr>icon = ''AlertCircle'', color = ''red'', bg = ''bg-red-100'',
                  text_cls = ''text-red-700'', border = ''border-red-200''\<rparr>),
      (''medium'', \<lparr>icon = ''AlertTriangle'', color = ''yellow'', bg = ''bg-yellow-100'',
                    text_cls = ''text-yellow-700'', border = ''border-yellow-200''\<rparr>),
      (''low'', \<lparr>icon = ''Info'', color = ''blue'', bg = ''bg-blue-100'',
                 text_cls = ''text-blue-700'', border = ''border-blue-200''\<rparr>)]"

text \<open>
  The value of a property read \<^verbatim>\<open>obj[key]\<close> on an object literal. JavaScript
  looks the key up among the own properties first and then along the prototype
  chain, which for an object literal is \<^verbatim>\<open>Object.prototype\<close>: its members
  (functions, and the prototype object itself for \<^verbatim>\<open>__proto__\<close>) are found
  under their names on every object literal. A key found nowhere reads as
  \<^verbatim>\<open>undefined\<close>.
\<close>

datatype js_value = Undefined | Config severity_config | Inherited string

definition object_prototype_keys :: "string list" where
  "object_prototype_keys =
     [''constructor'', ''__proto__'', ''hasOwnProperty'', ''isPrototypeOf'',
      ''propertyIsEnumerable'', ''toLocaleString'', ''toString'', ''valueOf'',
      ''__defineGetter__'', ''__defineSetter__'', ''__lookupGetter__'',
      ''__lookupSetter__'']"

definition get_property :: "(string \<times> severity_config) list \<Rightarrow> string \<Rightarrow> js_value" where
  "get_property obj key =
     (case map_of obj key of
        Some c \<Rightarrow> Config c
      | None \<Rightarrow> if key \<in> set object_prototype_keys then Inherited key else Undefined)"

text \<open>Objects and functions are truthy, \<^verbatim>\<open>undefined\<close> is falsy.\<close>

fun truthy :: "js_value \<Rightarrow> bool" where
  "truthy Undefined = False"
| "truthy (Config _) = True"
| "truthy (Inherited _) = True"

text \<open>
  The severity field of an exception object is a string, or is missing
  (\<open>None\<close>); a missing field reads as \<^verbatim>\<open>undefined\<close>, which as a property key is
  the string \<^verbatim>\<open>"undefined"\<close>.
\<close>

fun to_property_key :: "string option \<Rightarrow> string" where
  "to_property_key None = ''undefined''"
| "to_property_key (Some s) = s"

text \<open>
  \<^verbatim>\<open>const severity = SEVERITY_CONFIG[exception.severity] || SEVERITY_CONFIG.medium\<close>
\<close>

definition ExceptionCard_severity :: "string option \<Rightarrow> js_value" where
  "ExceptionCard_severity sev =
     (let v = get_property SEVERITY_CONFIG (to_property_key sev)
      in if truthy v then v else get_property SEVERITY_CONFIG ''medium'')"

text \<open>
  \<^verbatim>\<open>const Icon = severity.icon\<close> and the JSX that follows: the card is drawn
  with the icon and the style names of \<^verbatim>\<open>severity\<close>. A value that is not one
  of the three configurations has no \<^verbatim>\<open>icon\<close>, so \<^verbatim>\<open>Icon\<close> is
  \<^verbatim>\<open>undefined\<close> and React refuses the element \<^verbatim>\<open><Icon ... />\<close> when it
  renders it (the element type is invalid): the render throws. The model
  returns the configuration the card is drawn with, or the error; nothing else
  in the card reads the severity configuration.
\<close>

datatype render_error = InvalidElementType

definition ExceptionCard :: "string option \<Rightarrow> render_error + severity_config" where
  "ExceptionCard sev =
     (case ExceptionCard_severity sev of
        Config c \<Rightarrow> Inr c
      | Undefined \<Rightarrow> Inl InvalidElementType
      | Inherited _ \<Rightarrow> Inl InvalidElementType)"

definition medium_config :: severity_config where
  "medium_config = \<lparr>icon = ''AlertTriangle'', color = ''yellow'', bg = ''bg-yellow-100'',
                    text_cls = ''text-yellow-700'', border = ''border-yellow-200''\<rparr>"

section \<open>The matching engine\<close>

text \<open>
  The engine that pairs bank transactions with AP records is the Python module
  \<^verbatim>\<open>matching_engine.py\<close> named in the README. The sources read for this
  development are the README and the pages of the web dashboard, which display
  the engine's results; the engine is not among them. The definitions of this
  section follow sections 3 and 4.1 of the specification. Amounts are integers
  in minor units, dates are day numbers, scores are rationals.
\<close>

text \<open>Modelled from the spec: the side of a Transaction (section 3), \<open>bank | ap\<close>.\<close>

datatype side = Bank | AP

text \<open>
  Modelled from the spec: the Transaction of section 3, whose declaration
  (\<^verbatim>\<open>models.py\<close>) is missing. The field \<open>id\<close> is \<open>tid\<close> here; \<open>reference\<close> is
  the check or reference number.
\<close>

record transaction =
  tid :: string
  side :: side
  date :: int
  amount :: int
  description :: string
  vendor_name :: "string option"
  reference :: "string option"
  batch_group_id :: "string option"

text \<open>Modelled from the spec: the match types of a MatchCandidate (section 3).\<close>

datatype match_type = Exact | Fuzzy | Batch

text \<open>Modelled from the spec: the MatchCandidate of section 3, owned by the engine.\<close>

record match_candidate =
  bank_transaction_id :: string
  ap_transaction_ids :: "string list"
  match_type :: match_type
  raw_score :: rat
  match_reasons :: "string list"

text \<open>
  Modelled from the spec: the Match of section 3, a MatchCandidate plus the
  confidence after economic adjustment and the economic flags.
\<close>

record match = match_candidate +
  confidence :: rat
  economic_flags :: "string list"

text \<open>
  Modelled from the spec: the options of section 6 that the engine reads, the
  threshold on a scale of 0 to 100, the amount tolerance as a fraction (0.01
  is one percent, as the Settings page prints it).
\<close>

record config =
  fuzzy_match_threshold :: rat
  date_tolerance_days :: int
  amount_tolerance_percent :: rat

text \<open>
  Modelled from the spec: the two string similarities of Pass 2. The README
  names the libraries that compute them (RapidFuzz, Jellyfish); neither the
  calls nor the libraries are at hand, so the engine takes both functions as
  a parameter.
\<close>

record similarity =
  vendor_similarity :: "string \<Rightarrow> string \<Rightarrow> rat"
  reference_similarity :: "string \<Rightarrow> string \<Rightarrow> rat"

text \<open>
  Modelled from the spec: the sign of an amount is fixed per side (a bank
  debit of -1500.00 pays an AP record of 1500.00 in the example of section
  8), so amounts are compared by magnitude.
\<close>

definition magnitude :: "transaction \<Rightarrow> int" where
  "magnitude t = \<bar>amount t\<bar>"

text \<open>
  Modelled from the spec: removal from the pool. A transaction matched in an
  earlier step is not reconsidered in a later one (section 4.1).
\<close>

definition remove_ids :: "string list \<Rightarrow> transaction list \<Rightarrow> transaction list" where
  "remove_ids ids ts = filter (\<lambda>t. tid t \<notin> set ids) ts"

text \<open>
  Modelled from the spec: the transaction ids a list of matches refers to, bank
  side (\<open>bank_transaction_id\<close>) and AP side (\<open>ap_transaction_ids\<close>).
\<close>

definition bank_ids :: "('a match_candidate_scheme) list \<Rightarrow> string list" where
  "bank_ids ms = map bank_transaction_id ms"

definition ap_ids :: "('a match_candidate_scheme) list \<Rightarrow> string list" where
  "ap_ids ms = concat (map ap_transaction_ids ms)"

subsection \<open>Pass 1: exact match\<close>

text \<open>
  Modelled from the spec: the test of Pass 1. Both check or reference numbers
  are present and equal, and the amounts are equal in minor units.
\<close>

definition exact_match :: "transaction \<Rightarrow> transaction \<Rightarrow> bool" where
  "exact_match b a =
     (case (reference b, reference a) of
        (Some rb, Some ra) \<Rightarrow> rb = ra \<and> magnitude b = magnitude a
      | _ \<Rightarrow> False)"

text \<open>
  Modelled from the spec: the candidate Pass 1 produces, confidence fixed at
  1.0 and match type exact.
\<close>

definition exact_candidate :: "transaction \<Rightarrow> transaction \<Rightarrow> match_candidate" where
  "exact_candidate b a =
     \<lparr>bank_transaction_id = tid b, ap_transaction_ids = [tid a], match_type = Exact,
      raw_score = 1, match_reasons = [''check_number'', ''amount'']\<rparr>"

text \<open>
  Modelled from the spec: Pass 1. Each bank transaction, in order, is paired
  with the first AP transaction of the pool that passes the test, and that AP
  transaction leaves the pool.
\<close>

fun pass1 :: "transaction list \<Rightarrow> transaction list \<Rightarrow> match_candidate list" where
  "pass1 [] aps = []"
| "pass1 (b # bs) aps =
     (case find (exact_match b) aps of
        None \<Rightarrow> pass1 bs aps
      | Some a \<Rightarrow> exact_candidate b a # pass1 bs (remove_ids [tid a] aps))"

subsection \<open>Pass 2: weighted fuzzy match\<close>

text \<open>Modelled from the spec: a factor of the score lies in \<open>[0, 1]\<close>.\<close>

definition clamp01 :: "rat \<Rightarrow> rat" where
  "clamp01 x = max 0 (min 1 x)"

text \<open>Modelled from the spec: the absolute amount difference of a pairing.\<close>

definition amount_difference :: "transaction \<Rightarrow> transaction \<Rightarrow> int" where
  "amount_difference b a = \<bar>magnitude b - magnitude a\<bar>"

text \<open>
  Modelled from the spec: amount closeness, 1 at equal amounts and decaying
  linearly to 0 as the relative difference reaches the tolerance.
\<close>

definition closeness :: "rat \<Rightarrow> int \<Rightarrow> int \<Rightarrow> rat" where
  "closeness tol target actual =
     (let d = \<bar>actual - target\<bar>
      in if d = 0 then 1
         else if target = 0 \<or> tol \<le> 0 then 0
         else clamp01 (1 - (of_int d / of_int \<bar>target\<bar>) / tol))"

text \<open>
  Modelled from the spec: the amount factor of a pairing, the difference taken
  relative to the AP amount.
\<close>

definition amount_closeness :: "config \<Rightarrow> transaction \<Rightarrow> transaction \<Rightarrow> rat" where
  "amount_closeness cfg b a =
     closeness (amount_tolerance_percent cfg) (magnitude a) (magnitude b)"

text \<open>
  Modelled from the spec: date proximity, decaying linearly to 0 at the
  configured number of days.
\<close>

definition date_proximity :: "config \<Rightarrow> transaction \<Rightarrow> transaction \<Rightarrow> rat" where
  "date_proximity cfg b a =
     (let d = \<bar>date b - date a\<bar>
      in if d = 0 then 1
         else if date_tolerance_days cfg \<le> 0 then 0
         else clamp01 (1 - of_int d / of_int (date_tolerance_days cfg)))"

text \<open>
  Modelled from the spec: a string similarity on optional fields, 0 when a
  field is absent.
\<close>

definition option_similarity ::
  "(string \<Rightarrow> string \<Rightarrow> rat) \<Rightarrow> string option \<Rightarrow> string option \<Rightarrow> rat" where
  "option_similarity f x y =
     (case (x, y) of (Some u, Some v) \<Rightarrow> clamp01 (f u v) | _ \<Rightarrow> 0)"

text \<open>
  Modelled from the spec: the weighted score of Pass 2, amount 0.40, date
  0.25, vendor name 0.25, reference 0.10 (the README gives the same weights).
\<close>

definition score :: "config \<Rightarrow> similarity \<Rightarrow> transaction \<Rightarrow> transaction \<Rightarrow> rat" where
  "score cfg sim b a =
       (40 / 100) * amount_closeness cfg b a
     + (25 / 100) * date_proximity cfg b a
     + (25 / 100) * option_similarity (vendor_similarity sim) (vendor_name b) (vendor_name a)
     + (10 / 100) * option_similarity (reference_similarity sim) (reference b) (reference a)"

text \<open>
  Modelled from the spec: candidates below the fuzzy-match threshold are
  discarded.
\<close>

definition qualifies :: "config \<Rightarrow> similarity \<Rightarrow> transaction \<Rightarrow> transaction \<Rightarrow> bool" where
  "qualifies cfg sim b a = (fuzzy_match_threshold cfg \<le> 100 * score cfg sim b a)"

text \<open>
  Modelled from the spec: selection of the single best element of a list under
  a strict preference; among equals the earlier one stays.
\<close>

fun pick_best :: "('a \<Rightarrow> 'a \<Rightarrow> bool) \<Rightarrow> 'a list \<Rightarrow> 'a option" where
  "pick_best better [] = None"
| "pick_best better (x # xs) = Some (foldl (\<lambda>c y. if better y c then y else c) x xs)"

text \<open>
  Modelled from the spec: the order of pairings, the higher score first, ties
  broken by the smaller absolute amount difference, then by the earlier AP
  date.
\<close>

definition better_pair ::
  "config \<Rightarrow> similarity \<Rightarrow> transaction \<times> transaction \<Rightarrow> transaction \<times> transaction \<Rightarrow> bool" where
  "better_pair cfg sim p q =
     (let sp = score cfg sim (fst p) (snd p); sq = score cfg sim (fst q) (snd q);
          dp = amount_difference (fst p) (snd p); dq = amount_difference (fst q) (snd q)
      in sq < sp \<or> (sp = sq \<and> (dp < dq \<or> (dp = dq \<and> date (snd p) < date (snd q)))))"

text \<open>
  Modelled from the spec: the single highest-scoring AP candidate of a bank
  transaction among the AP transactions of the pool.
\<close>

definition best_candidate ::
  "config \<Rightarrow> similarity \<Rightarrow> transaction \<Rightarrow> transaction list \<Rightarrow> transaction option" where
  "best_candidate cfg sim b aps =
     pick_best (\<lambda>a c. better_pair cfg sim (b, a) (b, c)) (filter (qualifies cfg sim b) aps)"

text \<open>Modelled from the spec: every bank transaction of the pool with its top choice.\<close>

definition top_choices ::
  "config \<Rightarrow> similarity \<Rightarrow> transaction list \<Rightarrow> transaction list
     \<Rightarrow> (transaction \<times> transaction) list" where
  "top_choices cfg sim bs aps =
     concat (map (\<lambda>b. case best_candidate cfg sim b aps of
                           None \<Rightarrow> []
                         | Some a \<Rightarrow> [(b, a)]) bs)"

text \<open>Modelled from the spec: the candidate Pass 2 produces.\<close>

definition fuzzy_candidate ::
  "config \<Rightarrow> similarity \<Rightarrow> transaction \<Rightarrow> transaction \<Rightarrow> match_candidate" where
  "fuzzy_candidate cfg sim b a =
     \<lparr>bank_transaction_id = tid b, ap_transaction_ids = [tid a], match_type = Fuzzy,
      raw_score = score cfg sim b a,
      match_reasons = [''amount'', ''date'', ''vendor_name'', ''reference'']\<rparr>"

lemma foldl_pick_in: "foldl (\<lambda>c y. if f y c then y else c) x xs \<in> insert x (set xs)"
  by (induction xs arbitrary: x) auto

lemma pick_best_in: "pick_best f xs = Some x \<Longrightarrow> x \<in> set xs"
  using foldl_pick_in [of f "hd xs" "tl xs"] by (cases xs) auto

lemma best_candidate_in:
  "best_candidate cfg sim b aps = Some a \<Longrightarrow> a \<in> set aps"
  unfolding best_candidate_def by (drule pick_best_in) simp

lemma top_choices_in:
  "(b, a) \<in> set (top_choices cfg sim bs aps) \<Longrightarrow> b \<in> set bs \<and> a \<in> set aps"
  by (auto simp: top_choices_def dest: best_candidate_in [OF sym] split: option.splits)

lemma remove_ids_shorter:
  "t \<in> set ts \<Longrightarrow> length (remove_ids [tid t] ts) < length ts"
  unfolding remove_ids_def by (rule length_filter_less [of t]) auto

text \<open>
  Modelled from the spec: the global assignment of Pass 2. Among the top
  choices of all bank transactions of the pool the best pairing is matched,
  both transactions leave the pools, and the remaining bank transactions are
  evaluated again against the remaining AP transactions: a bank transaction
  that lost its top choice to a higher-scoring pairing goes on with its next
  best candidate, or stays unmatched when it has none. Every round removes a
  bank transaction from the pool, so the pass ends.
\<close>

function pass2 ::
  "config \<Rightarrow> similarity \<Rightarrow> transaction list \<Rightarrow> transaction list \<Rightarrow> match_candidate list" where
  "pass2 cfg sim bs aps =
     (case pick_best (better_pair cfg sim) (top_choices cfg sim bs aps) of
        None \<Rightarrow> []
      | Some (b, a) \<Rightarrow>
          fuzzy_candidate cfg sim b a
          # pass2 cfg sim (remove_ids [tid b] bs) (remove_ids [tid a] aps))"
  by pat_completeness auto
termination
proof (relation "measure (\<lambda>(cfg, sim, bs, aps). length bs)")
  show "wf (measure (\<lambda>(cfg, sim, bs, aps). length bs))"
    by simp
next
  fix cfg sim bs aps p b a
  assume "pick_best (better_pair cfg sim) (top_choices cfg sim bs aps) = Some p"
    and "(b, a) = p"
  then have "(b, a) \<in> set (top_choices cfg sim bs aps)"
    by (auto dest: pick_best_in)
  then have "b \<in> set bs"
    by (simp add: top_choices_in)
  then show "((cfg, sim, remove_ids [tid b] bs, remove_ids [tid a] aps), (cfg, sim, bs, aps))
       \<in> measure (\<lambda>(cfg, sim, bs, aps). length bs)"
    by (simp add: remove_ids_shorter)
qed

declare pass2.simps [simp del]

subsection \<open>Pass 3: batch detection\<close>

text \<open>Modelled from the spec: two transactions name the same vendor.\<close>

definition same_vendor :: "transaction \<Rightarrow> transaction \<Rightarrow> bool" where
  "same_vendor b a =
     (case (vendor_name b, vendor_name a) of (Some u, Some v) \<Rightarrow> u = v | _ \<Rightarrow> False)"

text \<open>
  Modelled from the spec: the group searched for a bank transaction, the AP
  transactions of the pool that share its vendor and lie within the
  date-tolerance window.
\<close>

definition batch_group :: "config \<Rightarrow> transaction \<Rightarrow> transaction list \<Rightarrow> transaction list" where
  "batch_group cfg b aps =
     filter (\<lambda>a. same_vendor b a \<and> \<bar>date b - date a\<bar> \<le> date_tolerance_days cfg) aps"

text \<open>Modelled from the spec: a sum is within the amount tolerance of the bank amount.\<close>

definition within_tolerance :: "config \<Rightarrow> int \<Rightarrow> int \<Rightarrow> bool" where
  "within_tolerance cfg target actual =
     (of_int \<bar>actual - target\<bar> \<le> amount_tolerance_percent cfg * of_int \<bar>target\<bar>)"

text \<open>Modelled from the spec: the summed amounts of a combination.\<close>

definition batch_total :: "transaction list \<Rightarrow> int" where
  "batch_total s = sum_list (map magnitude s)"

text \<open>
  Modelled from the spec: the bounded combination search. A group larger than
  the cap is not searched; otherwise the first combination of two or more AP
  transactions of the group whose amounts sum to the bank amount within
  tolerance is taken. The spec names no option for the cap, so it is a
  parameter.
\<close>

definition find_batch ::
  "config \<Rightarrow> nat \<Rightarrow> transaction \<Rightarrow> transaction list \<Rightarrow> transaction list option" where
  "find_batch cfg cap b aps =
     (let g = batch_group cfg b aps
      in if cap < length g then None
         else find (\<lambda>s. 2 \<le> length s \<and> within_tolerance cfg (magnitude b) (batch_total s))
                (subseqs g))"

text \<open>
  Modelled from the spec: the candidate Pass 3 produces, with several AP ids,
  match type batch and a score that reflects how tight the amount match is.
\<close>

definition batch_candidate :: "config \<Rightarrow> transaction \<Rightarrow> transaction list \<Rightarrow> match_candidate" where
  "batch_candidate cfg b s =
     \<lparr>bank_transaction_id = tid b, ap_transaction_ids = map tid s, match_type = Batch,
      raw_score = closeness (amount_tolerance_percent cfg) (magnitude b) (batch_total s),
      match_reasons = [''vendor_name'', ''date'', ''amount_sum'']\<rparr>"

text \<open>
  Modelled from the spec: Pass 3, over the bank transactions still unmatched,
  in order; the AP transactions of a batch leave the pool.
\<close>

fun pass3 ::
  "config \<Rightarrow> nat \<Rightarrow> transaction list \<Rightarrow> transaction list \<Rightarrow> match_candidate list" where
  "pass3 cfg cap [] aps = []"
| "pass3 cfg cap (b # bs) aps =
     (case find_batch cfg cap b aps of
        None \<Rightarrow> pass3 cfg cap bs aps
      | Some s \<Rightarrow> batch_candidate cfg b s # pass3 cfg cap bs (remove_ids (map tid s) aps))"

subsection \<open>The engine and the matches of a reconciliation\<close>

text \<open>
  Modelled from the spec: the MatchingEngine of section 4.1. The passes run in
  order, each on the transactions the earlier passes left; the output is the
  matches of the three passes and the two residual sets.
\<close>

definition matching_engine ::
  "config \<Rightarrow> similarity \<Rightarrow> nat \<Rightarrow> transaction list \<Rightarrow> transaction list
     \<Rightarrow> match_candidate list \<times> transaction list \<times> transaction list" where
  "matching_engine cfg sim cap bank ap =
     (let m1 = pass1 bank ap;
          b1 = remove_ids (bank_ids m1) bank;
          a1 = remove_ids (ap_ids m1) ap;
          m2 = pass2 cfg sim b1 a1;
          b2 = remove_ids (bank_ids m2) b1;
          a2 = remove_ids (ap_ids m2) a1;
          m3 = pass3 cfg cap b2 a2;
          b3 = remove_ids (bank_ids m3) b2;
          a3 = remove_ids (ap_ids m3) a2
      in (m1 @ m2 @ m3, b3, a3))"

text \<open>
  Modelled from the spec: the EconomicValidator turns a MatchCandidate into a
  Match by adding a confidence and a set of flags; it reads the candidate and
  changes none of its fields (section 3). What it adds is the parameter
  \<open>adjust\<close>.
\<close>

definition to_match :: "(match_candidate \<Rightarrow> rat \<times> string list) \<Rightarrow> match_candidate \<Rightarrow> match" where
  "to_match adjust c =
     \<lparr>bank_transaction_id = bank_transaction_id c,
      ap_transaction_ids = ap_transaction_ids c,
      match_type = match_type c,
      raw_score = raw_score c,
      match_reasons = match_reasons c,
      confidence = fst (adjust c),
      economic_flags = snd (adjust c)\<rparr>"

text \<open>
  Modelled from the spec: the \<open>matches\<close> of the result of \<open>reconcile\<close> (section
  6), the engine's candidates after economic validation.
\<close>

definition reconcile_matches ::
  "(match_candidate \<Rightarrow> rat \<times> string list) \<Rightarrow> config \<Rightarrow> similarity \<Rightarrow> nat
     \<Rightarrow> transaction list \<Rightarrow> transaction list \<Rightarrow> match list" where
  "reconcile_matches adjust cfg sim cap bank ap =
     map (to_match adjust) (fst (matching_engine cfg sim cap bank ap))"

text \<open>
  A run on the examples of section 8: the default options, a similarity that
  tells equal strings from different ones, and transactions for an exact, a
  fuzzy and a batch match, with one transaction left over on each side.
\<close>

definition default_config :: config where
  "default_config = \<lparr>fuzzy_match_threshold = 85, date_tolerance_days = 5,
                      amount_tolerance_percent = 1 / 100\<rparr>"

definition equal_strings :: similarity where
  "equal_strings = \<lparr>vendor_similarity = (\<lambda>x y. if x = y then 1 else 0),
                     reference_similarity = (\<lambda>x y. if x = y then 1 else 0)\<rparr>"

definition raw_confidence :: "match_candidate \<Rightarrow> rat \<times> string list" where
  "raw_confidence c = (raw_score c, [])"

definition txn ::
  "string \<Rightarrow> side \<Rightarrow> int \<Rightarrow> int \<Rightarrow> string option \<Rightarrow> string option \<Rightarrow> transaction" where
  "txn i s d amt v r =
     \<lparr>tid = i, side = s, date = d, amount = amt, description = [],
      vendor_name = v, reference = r, batch_group_id = None\<rparr>"

definition example_bank :: "transaction list" where
  "example_bank =
     [txn ''b1'' Bank 10 (- 150000) None (Some ''1042''),
      txn ''b2'' Bank 15 (- 100000) (Some ''AWS'') None,
      txn ''b3'' Bank 34 100000 (Some ''Acme'') None,
      txn ''b4'' Bank 40 (- 4200) None None]"

definition example_ap :: "transaction list" where
  "example_ap =
     [txn ''a1'' AP 9 150000 (Some ''Dell'') (Some ''1042''),
      txn ''a2'' AP 15 100000 (Some ''AWS'') None,
      txn ''a3'' AP 32 50000 (Some ''Acme'') None,
      txn ''a4'' AP 33 30000 (Some ''Acme'') None,
      txn ''a5'' AP 34 20000 (Some ''Acme'') None,
      txn ''a6'' AP 50 777 (Some ''Zed'') None]"

section \<open>Properties of the page-number strip\<close>

lemma numbers_map_PageNum: "numbers (map PageNum xs) = xs"
  by (induction xs) auto

lemma no_adjacent_ellipsis_map_PageNum: "no_adjacent_ellipsis (map PageNum xs)"
  by (induction xs rule: induct_list012) auto

lemma upto_three: "[i..i + 2] = [i, i + 1, i + 2]"
  by (simp add: upto_rec1)

text \<open>The four shapes of the strip.\<close>

lemma getPageNumbers_small:
  "totalPages \<le> 5 \<Longrightarrow> getPageNumbers currentPage totalPages = map PageNum [1..totalPages]"
  by (simp add: getPageNumbers_def maxVisible_def)

lemma getPageNumbers_at_start:
  assumes "5 < totalPages" "1 \<le> currentPage" "currentPage \<le> 3"
  shows "getPageNumbers currentPage totalPages =
           [PageNum 1, PageNum 2, PageNum 3, PageNum 4, Ellipsis, PageNum totalPages]"
proof -
  have "[2..4] = [2, 3, 4::int]"
    using upto_three [of 2] by simp
  then show ?thesis
    using assms by (simp add: getPageNumbers_def maxVisible_def Let_def)
qed

lemma getPageNumbers_at_end:
  assumes "5 < totalPages" "3 < currentPage" "totalPages - 2 \<le> currentPage"
    "currentPage \<le> totalPages"
  shows "getPageNumbers currentPage totalPages =
           PageNum 1 # (if totalPages - 3 > 2 then [Ellipsis] else []) @
           [PageNum (totalPages - 3), PageNum (totalPages - 2), PageNum (totalPages - 1),
            PageNum totalPages]"
proof -
  have "[totalPages - 3..totalPages - 1] = [totalPages - 3, totalPages - 2, totalPages - 1]"
    using upto_three [of "totalPages - 3"] by (simp add: algebra_simps)
  moreover have "min (totalPages - 1) (currentPage + 1) = totalPages - 1"
    using assms by simp
  ultimately show ?thesis
    using assms by (simp add: getPageNumbers_def maxVisible_def Let_def)
qed

lemma getPageNumbers_middle:
  assumes "5 < totalPages" "3 < currentPage" "currentPage < totalPages - 2"
  shows "getPageNumbers currentPage totalPages =
           [PageNum 1, Ellipsis, PageNum (currentPage - 1), PageNum currentPage,
            PageNum (currentPage + 1), Ellipsis, PageNum totalPages]"
proof -
  have "[currentPage - 1..currentPage + 1] = [currentPage - 1, currentPage, currentPage + 1]"
    using upto_three [of "currentPage - 1"] by (simp add: algebra_simps)
  moreover have "min (totalPages - 1) (currentPage + 1) = currentPage + 1"
    and "max 2 (currentPage - 1) = currentPage - 1"
    using assms by simp_all
  ultimately show ?thesis
    using assms by (simp add: getPageNumbers_def maxVisible_def Let_def)
qed

text \<open>
  Claim C9. For every \<open>totalPages \<ge> 1\<close> and every \<open>currentPage\<close> with
  \<open>1 \<le> currentPage \<le> totalPages\<close>, the numeric entries of the strip lie in
  \<open>[1, totalPages]\<close> and are strictly increasing; when \<open>totalPages > 5\<close> the
  strip starts with page 1 and ends with page \<open>totalPages\<close>; and every
  placeholder stands between two page numbers.
\<close>

theorem getPageNumbers_well_formed:
  assumes "1 \<le> totalPages" "1 \<le> currentPage" "currentPage \<le> totalPages"
  shows "(\<forall>n \<in> set (numbers (getPageNumbers currentPage totalPages)).
            1 \<le> n \<and> n \<le> totalPages)
     \<and> sorted_wrt (<) (numbers (getPageNumbers currentPage totalPages))
     \<and> (totalPages > 5 \<longrightarrow>
            hd (getPageNumbers currentPage totalPages) = PageNum 1
          \<and> last (getPageNumbers currentPage totalPages) = PageNum totalPages)
     \<and> ellipsis_between (getPageNumbers currentPage totalPages)"
proof -
  consider (small) "totalPages \<le> 5"
    | (start) "5 < totalPages" "currentPage \<le> 3"
    | (finish) "5 < totalPages" "3 < currentPage" "totalPages - 2 \<le> currentPage"
    | (middle) "5 < totalPages" "3 < currentPage" "currentPage < totalPages - 2"
    by linarith
  then show ?thesis
  proof cases
    case small
    have "[1..totalPages] \<noteq> []"
      using assms by simp
    then show ?thesis
      using assms small
      by (simp add: getPageNumbers_small numbers_map_PageNum ellipsis_between_def
          no_adjacent_ellipsis_map_PageNum hd_map last_map)
  next
    case start
    then show ?thesis
      using assms by (simp add: getPageNumbers_at_start ellipsis_between_def)
  next
    case finish
    then show ?thesis
      using assms by (simp add: getPageNumbers_at_end ellipsis_between_def)
  next
    case middle
    then show ?thesis
      using assms by (simp add: getPageNumbers_middle ellipsis_between_def)
  qed
qed

theorem getPageNumbers_well_formed_witness:
  "(1::int) \<le> 10 \<and> (1::int) \<le> 5 \<and> (5::int) \<le> 10
   \<and> getPageNumbers 5 10 =
       [PageNum 1, Ellipsis, PageNum 4, PageNum 5, PageNum 6, Ellipsis, PageNum 10]
   \<and> numbers (getPageNumbers 5 10) = [1, 4, 5, 6, 10]
   \<and> sorted_wrt (<) (numbers (getPageNumbers 5 10))
   \<and> hd (getPageNumbers 5 10) = PageNum 1
   \<and> last (getPageNumbers 5 10) = PageNum 10
   \<and> ellipsis_between (getPageNumbers 5 10)"
  using getPageNumbers_well_formed [of 10 5] getPageNumbers_middle [of 10 5] by simp

section \<open>Properties of the severity lookup\<close>

lemma ExceptionCard_own_severities:
  "ExceptionCard (Some ''high'') = Inr (the (map_of SEVERITY_CONFIG ''high''))"
  "ExceptionCard (Some ''medium'') = Inr (the (map_of SEVERITY_CONFIG ''medium''))"
  "ExceptionCard (Some ''low'') = Inr (the (map_of SEVERITY_CONFIG ''low''))"
  by (simp_all add: ExceptionCard_def ExceptionCard_severity_def get_property_def
      SEVERITY_CONFIG_def)

text \<open>
  A severity that is neither an own key nor a name found on
  \<^verbatim>\<open>Object.prototype\<close> is drawn with the medium configuration; so is a
  missing severity.
\<close>

lemma ExceptionCard_fallback:
  assumes "to_property_key sev \<notin> {''high'', ''medium'', ''low''}"
    and "to_property_key sev \<notin> set object_prototype_keys"
  shows "ExceptionCard sev = Inr medium_config"
  using assms
  by (simp add: ExceptionCard_def ExceptionCard_severity_def get_property_def
      SEVERITY_CONFIG_def medium_config_def Let_def)

lemma ExceptionCard_missing_severity: "ExceptionCard None = Inr medium_config"
  by (simp add: ExceptionCard_def ExceptionCard_severity_def get_property_def
      SEVERITY_CONFIG_def medium_config_def Let_def object_prototype_keys_def)

lemma ExceptionCard_inherited_key:
  assumes "k \<in> set object_prototype_keys"
  shows "ExceptionCard (Some k) = Inl InvalidElementType"
  using assms
  by (auto simp add: ExceptionCard_def ExceptionCard_severity_def get_property_def
      SEVERITY_CONFIG_def Let_def object_prototype_keys_def)

text \<open>
  Claim C10 says that every severity other than \<^verbatim>\<open>"high"\<close>, \<^verbatim>\<open>"medium"\<close>
  and \<^verbatim>\<open>"low"\<close> is drawn with the medium configuration instead of failing.
  For the severity \<^verbatim>\<open>"constructor"\<close> the lookup finds the inherited
  \<^verbatim>\<open>Object.prototype.constructor\<close>, which is truthy, so the fallback after
  \<^verbatim>\<open>||\<close> is not taken, the value has no icon and the card fails to render.
\<close>

theorem ExceptionCard_constructor_fails:
  "''constructor'' \<notin> {''high'', ''medium'', ''low''}
   \<and> ExceptionCard_severity (Some ''constructor'') = Inherited ''constructor''
   \<and> ExceptionCard (Some ''constructor'') = Inl InvalidElementType
   \<and> ExceptionCard (Some ''constructor'') \<noteq> Inr medium_config"
  by (simp add: ExceptionCard_def ExceptionCard_severity_def get_property_def
      SEVERITY_CONFIG_def Let_def object_prototype_keys_def)

section \<open>Mutual exclusivity of the matches\<close>

lemma tid_remove_ids: "tid ` set (remove_ids ids ts) \<subseteq> tid ` set ts - set ids"
  by (auto simp: remove_ids_def)

lemma distinct_remove_ids:
  "distinct (map tid ts) \<Longrightarrow> distinct (map tid (remove_ids ids ts))"
  by (simp add: remove_ids_def distinct_map_filter)

lemma bank_ids_simps [simp]:
  "bank_ids [] = []" "bank_ids (m # ms) = bank_transaction_id m # bank_ids ms"
  "bank_ids (ms @ ns) = bank_ids ms @ bank_ids ns"
  by (simp_all add: bank_ids_def)

lemma ap_ids_simps [simp]:
  "ap_ids [] = []" "ap_ids (m # ms) = ap_transaction_ids m @ ap_ids ms"
  "ap_ids (ms @ ns) = ap_ids ms @ ap_ids ns"
  by (simp_all add: ap_ids_def)

lemma candidate_ids [simp]:
  "bank_transaction_id (exact_candidate b a) = tid b"
  "ap_transaction_ids (exact_candidate b a) = [tid a]"
  "bank_transaction_id (fuzzy_candidate cfg sim b a) = tid b"
  "ap_transaction_ids (fuzzy_candidate cfg sim b a) = [tid a]"
  "bank_transaction_id (batch_candidate cfg b s) = tid b"
  "ap_transaction_ids (batch_candidate cfg b s) = map tid s"
  by (simp_all add: exact_candidate_def fuzzy_candidate_def batch_candidate_def)

lemma to_match_ids [simp]:
  "bank_ids (map (to_match adjust) ms) = bank_ids ms"
  "ap_ids (map (to_match adjust) ms) = ap_ids ms"
  by (simp_all add: bank_ids_def ap_ids_def to_match_def comp_def)

subsection \<open>Pass 1\<close>

lemma pass1_bank_ids: "set (bank_ids (pass1 bs aps)) \<subseteq> tid ` set bs"
  by (induction bs arbitrary: aps) (auto split: option.splits)

lemma pass1_ap_ids: "set (ap_ids (pass1 bs aps)) \<subseteq> tid ` set aps"
proof (induction bs arbitrary: aps)
  case Nil
  then show ?case by simp
next
  case (Cons b bs)
  show ?case
  proof (cases "find (exact_match b) aps")
    case None
    then show ?thesis
      using Cons.IH [of aps] by simp
  next
    case (Some a)
    then have "a \<in> set aps"
      by (auto simp: find_Some_iff)
    moreover have "set (ap_ids (pass1 bs (remove_ids [tid a] aps))) \<subseteq> tid ` set aps"
      using Cons.IH [of "remove_ids [tid a] aps"] tid_remove_ids [of "[tid a]" aps] by blast
    ultimately show ?thesis
      using Some by simp
  qed
qed

lemma pass1_bank_distinct:
  "distinct (map tid bs) \<Longrightarrow> distinct (bank_ids (pass1 bs aps))"
proof (induction bs arbitrary: aps)
  case Nil
  then show ?case by simp
next
  case (Cons b bs)
  then have "tid b \<notin> tid ` set bs" and "distinct (map tid bs)"
    by auto
  then show ?case
    using Cons.IH pass1_bank_ids by (fastforce split: option.splits)
qed

lemma pass1_ap_distinct: "distinct (ap_ids (pass1 bs aps))"
proof (induction bs arbitrary: aps)
  case Nil
  then show ?case by simp
next
  case (Cons b bs)
  show ?case
  proof (cases "find (exact_match b) aps")
    case None
    then show ?thesis
      using Cons.IH by simp
  next
    case (Some a)
    have "tid a \<notin> set (ap_ids (pass1 bs (remove_ids [tid a] aps)))"
      using pass1_ap_ids [of bs "remove_ids [tid a] aps"] tid_remove_ids [of "[tid a]" aps]
      by auto
    then show ?thesis
      using Some Cons.IH by simp
  qed
qed

subsection \<open>Pass 2\<close>

lemma pass2_step:
  assumes "pick_best (better_pair cfg sim) (top_choices cfg sim bs aps) = Some (b, a)"
  shows "b \<in> set bs" "a \<in> set aps"
  using pick_best_in [OF assms] top_choices_in by blast+

lemma pass2_bank_ids: "set (bank_ids (pass2 cfg sim bs aps)) \<subseteq> tid ` set bs"
proof (induction cfg sim bs aps rule: pass2.induct)
  case (1 cfg sim bs aps)
  show ?case
  proof (cases "pick_best (better_pair cfg sim) (top_choices cfg sim bs aps)")
    case None
    then show ?thesis
      by (simp add: pass2.simps)
  next
    case (Some p)
    obtain b a where p: "p = (b, a)"
      by (cases p)
    have "set (bank_ids (pass2 cfg sim (remove_ids [tid b] bs) (remove_ids [tid a] aps)))
            \<subseteq> tid ` set bs"
      using "1.IH" [OF Some p [symmetric]] tid_remove_ids [of "[tid b]" bs] by blast
    moreover have "b \<in> set bs"
      using pass2_step Some p by blast
    ultimately show ?thesis
      using Some p by (simp add: pass2.simps [of cfg sim bs aps])
  qed
qed

lemma pass2_ap_ids: "set (ap_ids (pass2 cfg sim bs aps)) \<subseteq> tid ` set aps"
proof (induction cfg sim bs aps rule: pass2.induct)
  case (1 cfg sim bs aps)
  show ?case
  proof (cases "pick_best (better_pair cfg sim) (top_choices cfg sim bs aps)")
    case None
    then show ?thesis
      by (simp add: pass2.simps)
  next
    case (Some p)
    obtain b a where p: "p = (b, a)"
      by (cases p)
    have "set (ap_ids (pass2 cfg sim (remove_ids [tid b] bs) (remove_ids [tid a] aps)))
            \<subseteq> tid ` set aps"
      using "1.IH" [OF Some p [symmetric]] tid_remove_ids [of "[tid a]" aps] by blast
    moreover have "a \<in> set aps"
      using pass2_step Some p by blast
    ultimately show ?thesis
      using Some p by (simp add: pass2.simps [of cfg sim bs aps])
  qed
qed

lemma pass2_bank_distinct: "distinct (bank_ids (pass2 cfg sim bs aps))"
proof (induction cfg sim bs aps rule: pass2.induct)
  case (1 cfg sim bs aps)
  show ?case
  proof (cases "pick_best (better_pair cfg sim) (top_choices cfg sim bs aps)")
    case None
    then show ?thesis
      by (simp add: pass2.simps)
  next
    case (Some p)
    obtain b a where p: "p = (b, a)"
      by (cases p)
    have "tid b \<notin> set (bank_ids (pass2 cfg sim (remove_ids [tid b] bs) (remove_ids [tid a] aps)))"
      using pass2_bank_ids [of cfg sim "remove_ids [tid b] bs" "remove_ids [tid a] aps"]
        tid_remove_ids [of "[tid b]" bs] by auto
    then show ?thesis
      using Some p "1.IH" [OF Some p [symmetric]] by (simp add: pass2.simps [of cfg sim bs aps])
  qed
qed

lemma pass2_ap_distinct: "distinct (ap_ids (pass2 cfg sim bs aps))"
proof (induction cfg sim bs aps rule: pass2.induct)
  case (1 cfg sim bs aps)
  show ?case
  proof (cases "pick_best (better_pair cfg sim) (top_choices cfg sim bs aps)")
    case None
    then show ?thesis
      by (simp add: pass2.simps)
  next
    case (Some p)
    obtain b a where p: "p = (b, a)"
      by (cases p)
    have "tid a \<notin> set (ap_ids (pass2 cfg sim (remove_ids [tid b] bs) (remove_ids [tid a] aps)))"
      using pass2_ap_ids [of cfg sim "remove_ids [tid b] bs" "remove_ids [tid a] aps"]
        tid_remove_ids [of "[tid a]" aps] by auto
    then show ?thesis
      using Some p "1.IH" [OF Some p [symmetric]] by (simp add: pass2.simps [of cfg sim bs aps])
  qed
qed

subsection \<open>Pass 3\<close>

lemma subseqs_subset: "s \<in> set (subseqs xs) \<Longrightarrow> set s \<subseteq> set xs"
  using subseqs_powset [of xs] by blast

lemma subseqs_distinct_map:
  "s \<in> set (subseqs xs) \<Longrightarrow> distinct (map f xs) \<Longrightarrow> distinct (map f s)"
proof (induction xs arbitrary: s)
  case Nil
  then show ?case by simp
next
  case (Cons x xs)
  then consider (take) s' where "s = x # s'" "s' \<in> set (subseqs xs)"
    | (skip) "s \<in> set (subseqs xs)"
    by (auto simp: Let_def)
  then show ?case
  proof cases
    case take
    then have "set s' \<subseteq> set xs"
      by (simp add: subseqs_subset)
    then show ?thesis
      using take Cons by auto
  next
    case skip
    then show ?thesis
      using Cons by simp
  qed
qed

lemma find_batch_sub:
  assumes "find_batch cfg cap b aps = Some s"
  shows "s \<in> set (subseqs (batch_group cfg b aps))"
  using assms by (auto simp: find_batch_def Let_def find_Some_iff split: if_splits)

lemma find_batch_subset: "find_batch cfg cap b aps = Some s \<Longrightarrow> set s \<subseteq> set aps"
  using find_batch_sub subseqs_subset by (fastforce simp: batch_group_def)

lemma find_batch_distinct:
  assumes "find_batch cfg cap b aps = Some s" "distinct (map tid aps)"
  shows "distinct (map tid s)"
proof -
  have "distinct (map tid (batch_group cfg b aps))"
    using assms(2) by (simp add: batch_group_def distinct_map_filter)
  then show ?thesis
    using find_batch_sub [OF assms(1)] subseqs_distinct_map by blast
qed

lemma pass3_bank_ids: "set (bank_ids (pass3 cfg cap bs aps)) \<subseteq> tid ` set bs"
  by (induction bs arbitrary: aps) (auto split: option.splits)

lemma pass3_ap_ids: "set (ap_ids (pass3 cfg cap bs aps)) \<subseteq> tid ` set aps"
proof (induction bs arbitrary: aps)
  case Nil
  then show ?case by simp
next
  case (Cons b bs)
  show ?case
  proof (cases "find_batch cfg cap b aps")
    case None
    then show ?thesis
      using Cons.IH [of aps] by simp
  next
    case (Some s)
    have "set (ap_ids (pass3 cfg cap bs (remove_ids (map tid s) aps))) \<subseteq> tid ` set aps"
      using Cons.IH [of "remove_ids (map tid s) aps"] tid_remove_ids [of "map tid s" aps]
      by blast
    moreover have "tid ` set s \<subseteq> tid ` set aps"
      using find_batch_subset [OF Some] by blast
    ultimately show ?thesis
      using Some by simp
  qed
qed

lemma pass3_bank_distinct:
  "distinct (map tid bs) \<Longrightarrow> distinct (bank_ids (pass3 cfg cap bs aps))"
proof (induction bs arbitrary: aps)
  case Nil
  then show ?case by simp
next
  case (Cons b bs)
  then have "tid b \<notin> tid ` set bs" and "distinct (map tid bs)"
    by auto
  then show ?case
    using Cons.IH pass3_bank_ids by (fastforce split: option.splits)
qed

lemma pass3_ap_distinct:
  "distinct (map tid aps) \<Longrightarrow> distinct (ap_ids (pass3 cfg cap bs aps))"
proof (induction bs arbitrary: aps)
  case Nil
  then show ?case by simp
next
  case (Cons b bs)
  show ?case
  proof (cases "find_batch cfg cap b aps")
    case None
    then show ?thesis
      using Cons by simp
  next
    case (Some s)
    let ?rest = "pass3 cfg cap bs (remove_ids (map tid s) aps)"
    have "distinct (ap_ids ?rest)"
      using Cons.IH [of "remove_ids (map tid s) aps"] Cons.prems
      by (simp add: distinct_remove_ids)
    moreover have "distinct (map tid s)"
      using find_batch_distinct [OF Some Cons.prems] .
    moreover have "set (map tid s) \<inter> set (ap_ids ?rest) = {}"
      using pass3_ap_ids [of cfg cap bs "remove_ids (map tid s) aps"]
        tid_remove_ids [of "map tid s" aps] by auto
    ultimately show ?thesis
      using Some by simp
  qed
qed

subsection \<open>The three passes together\<close>

text \<open>
  Ids matched from a pool that an earlier pass has narrowed are new: \<open>M1\<close>,
  \<open>M2\<close>, \<open>M3\<close> are the ids the passes match, \<open>P0\<close>, \<open>P1\<close>, \<open>P2\<close> the ids of
  the pools they work on.
\<close>

lemma narrowing_pools:
  assumes "M2 \<subseteq> P1" "P1 \<subseteq> P0 - M1" "M3 \<subseteq> P2" "P2 \<subseteq> P1 - M2"
  shows "M1 \<inter> M2 = {}" "M1 \<inter> M3 = {}" "M2 \<inter> M3 = {}" "M2 \<subseteq> P0" "M3 \<subseteq> P0"
  using assms by auto

lemma matching_engine_example:
  "fst (matching_engine default_config equal_strings 10 example_bank example_ap) =
     [\<lparr>bank_transaction_id = ''b1'', ap_transaction_ids = [''a1''],
       match_type = Exact, raw_score = 1,
       match_reasons = [''check_number'', ''amount'']\<rparr>,
      \<lparr>bank_transaction_id = ''b2'', ap_transaction_ids = [''a2''],
       match_type = Fuzzy, raw_score = 9 / 10,
       match_reasons = [''amount'', ''date'', ''vendor_name'', ''reference'']\<rparr>,
      \<lparr>bank_transaction_id = ''b3'', ap_transaction_ids = [''a3'', ''a4'', ''a5''],
       match_type = Batch, raw_score = 1,
       match_reasons = [''vendor_name'', ''date'', ''amount_sum'']\<rparr>]"
  by code_simp

text \<open>
  Claim C1. When the ids of the bank transactions and the ids of the AP
  transactions handed to a reconciliation are distinct, no bank id and no AP
  id is referred to twice by the matches of the result, whether in one match
  or in two, and every id a match refers to is the id of an input transaction
  of its side. This holds for every configuration, every pair of similarity
  functions, every cap of the batch search and every economic validator.
\<close>

theorem reconcile_no_double_matching:
  assumes "distinct (map tid bank)" "distinct (map tid ap)"
  shows "distinct (bank_ids (reconcile_matches adjust cfg sim cap bank ap))
       \<and> distinct (ap_ids (reconcile_matches adjust cfg sim cap bank ap))
       \<and> set (bank_ids (reconcile_matches adjust cfg sim cap bank ap)) \<subseteq> tid ` set bank
       \<and> set (ap_ids (reconcile_matches adjust cfg sim cap bank ap)) \<subseteq> tid ` set ap"
proof -
  define m1 where "m1 = pass1 bank ap"
  define b1 where "b1 = remove_ids (bank_ids m1) bank"
  define a1 where "a1 = remove_ids (ap_ids m1) ap"
  define m2 where "m2 = pass2 cfg sim b1 a1"
  define b2 where "b2 = remove_ids (bank_ids m2) b1"
  define a2 where "a2 = remove_ids (ap_ids m2) a1"
  define m3 where "m3 = pass3 cfg cap b2 a2"
  have "fst (matching_engine cfg sim cap bank ap) = m1 @ m2 @ m3"
    by (simp add: matching_engine_def Let_def m1_def b1_def a1_def m2_def b2_def a2_def m3_def)
  then have ms: "bank_ids (reconcile_matches adjust cfg sim cap bank ap)
        = bank_ids m1 @ bank_ids m2 @ bank_ids m3"
    "ap_ids (reconcile_matches adjust cfg sim cap bank ap) = ap_ids m1 @ ap_ids m2 @ ap_ids m3"
    by (simp_all add: reconcile_matches_def)
  have pools: "distinct (map tid b2)" "distinct (map tid a2)"
    using assms by (simp_all add: b1_def a1_def b2_def a2_def distinct_remove_ids)
  have b1: "tid ` set b1 \<subseteq> tid ` set bank - set (bank_ids m1)"
    and a1: "tid ` set a1 \<subseteq> tid ` set ap - set (ap_ids m1)"
    and b2: "tid ` set b2 \<subseteq> tid ` set b1 - set (bank_ids m2)"
    and a2: "tid ` set a2 \<subseteq> tid ` set a1 - set (ap_ids m2)"
    unfolding b1_def a1_def b2_def a2_def by (rule tid_remove_ids)+
  have s1: "set (bank_ids m1) \<subseteq> tid ` set bank" "set (ap_ids m1) \<subseteq> tid ` set ap"
    unfolding m1_def by (rule pass1_bank_ids pass1_ap_ids)+
  have s2: "set (bank_ids m2) \<subseteq> tid ` set b1" "set (ap_ids m2) \<subseteq> tid ` set a1"
    unfolding m2_def by (rule pass2_bank_ids pass2_ap_ids)+
  have s3: "set (bank_ids m3) \<subseteq> tid ` set b2" "set (ap_ids m3) \<subseteq> tid ` set a2"
    unfolding m3_def by (rule pass3_bank_ids pass3_ap_ids)+
  have d1: "distinct (bank_ids m1)" "distinct (ap_ids m1)"
    unfolding m1_def using assms by (simp_all add: pass1_bank_distinct pass1_ap_distinct)
  have d2: "distinct (bank_ids m2)" "distinct (ap_ids m2)"
    unfolding m2_def by (simp_all add: pass2_bank_distinct pass2_ap_distinct)
  have d3: "distinct (bank_ids m3)" "distinct (ap_ids m3)"
    unfolding m3_def using pools by (simp_all add: pass3_bank_distinct pass3_ap_distinct)
  note bank = narrowing_pools [OF s2(1) b1 s3(1) b2]
  note ap = narrowing_pools [OF s2(2) a1 s3(2) a2]
  have "distinct (bank_ids m1 @ bank_ids m2 @ bank_ids m3)"
    using d1(1) d2(1) d3(1) bank(1-3) by (simp add: Int_Un_distrib)
  moreover have "distinct (ap_ids m1 @ ap_ids m2 @ ap_ids m3)"
    using d1(2) d2(2) d3(2) ap(1-3) by (simp add: Int_Un_distrib)
  moreover have "set (bank_ids m1 @ bank_ids m2 @ bank_ids m3) \<subseteq> tid ` set bank"
    using s1(1) bank(4,5) by simp
  moreover have "set (ap_ids m1 @ ap_ids m2 @ ap_ids m3) \<subseteq> tid ` set ap"
    using s1(2) ap(4,5) by simp
  ultimately show ?thesis
    unfolding ms by blast
qed

theorem reconcile_no_double_matching_witness:
  "distinct (map tid example_bank) \<and> distinct (map tid example_ap)
   \<and> bank_ids (reconcile_matches raw_confidence default_config equal_strings 10
        example_bank example_ap) = [''b1'', ''b2'', ''b3'']
   \<and> ap_ids (reconcile_matches raw_confidence default_config equal_strings 10
        example_bank example_ap) = [''a1'', ''a2'', ''a3'', ''a4'', ''a5'']
   \<and> distinct (bank_ids (reconcile_matches raw_confidence default_config equal_strings 10
        example_bank example_ap))
   \<and> distinct (ap_ids (reconcile_matches raw_confidence default_config equal_strings 10
        example_bank example_ap))
   \<and> set (bank_ids (reconcile_matches raw_confidence default_config equal_strings 10
        example_bank example_ap)) \<subseteq> tid ` set example_bank
   \<and> set (ap_ids (reconcile_matches raw_confidence default_config equal_strings 10
        example_bank example_ap)) \<subseteq> tid ` set example_ap"
proof -
  have bank: "distinct (map tid example_bank)"
    by (simp add: example_bank_def txn_def)
  have ap: "distinct (map tid example_ap)"
    by (simp add: example_ap_def txn_def)
  have "bank_ids (reconcile_matches raw_confidence default_config equal_strings 10
          example_bank example_ap) = [''b1'', ''b2'', ''b3'']"
    and "ap_ids (reconcile_matches raw_confidence default_config equal_strings 10
          example_bank example_ap) = [''a1'', ''a2'', ''a3'', ''a4'', ''a5'']"
    by (simp_all add: reconcile_matches_def matching_engine_example to_match_def)
  then show ?thesis
    using bank ap
      reconcile_no_double_matching [OF bank ap, of raw_confidence default_config
        equal_strings 10]
    by simp
qed

end
